theory Spec2Isabelle
  imports Main "HOL-Library.Sublist"
begin

section \<open>Content category filter (trendradar/core/content\_filter.py)\<close>

text \<open>
  A shallow embedding of the three functions of \<^verbatim>\<open>content_filter.py\<close>:
  \<^verbatim>\<open>matches_content_category\<close>, \<^verbatim>\<open>filter_results_by_category\<close> and
  \<^verbatim>\<open>filter_rss_items_by_category\<close>.

  \<^item> A Python \<^verbatim>\<open>str\<close> is a list of characters \<open>'c list\<close>; the character type is left
    open (Unicode code points in Python, \<^typ>\<open>char\<close> in the concrete scenarios below).
  \<^item> The builtin \<^verbatim>\<open>str.lower\<close> is not code of this module; every function that calls it
    takes it as the parameter \<open>lower\<close>. The concrete scenarios on ASCII text use
    \<open>ascii_lower\<close>, which is what \<^verbatim>\<open>str.lower\<close> computes there. Where the claim is about
    case itself, the builtin is \<open>str_lower\<close>: CPython's algorithm over code points, with
    the tables of the Unicode database as a parameter.
  \<^item> A Python \<^verbatim>\<open>dict\<close> keeps insertion order and has unique keys: it is an association list
    whose keys are distinct (\<open>is_dict\<close>). \<^verbatim>\<open>d[k] = v\<close> is \<open>dict_set\<close>, \<^verbatim>\<open>d.get(k, x)\<close> is
    \<open>dict_get\<close>. The functions are defined on every association list; an association list
    is a value of the type \<^verbatim>\<open>Dict\<close> of the source when its keys are distinct, and the
    results \<^verbatim>\<open>{source_id: {title: title_data}}\<close> when that holds at both levels
    (\<open>is_results\<close>). Theorems about the results assume no more than this.
  \<^item> The configuration dictionary is read at three literal keys only, each with a default
    for a missing key: it is a record of three optional fields (\<open>None\<close>: key absent).
  \<^item> \<^verbatim>\<open>print\<close> is the only effect: each filter returns its result together with the list
    of summary lines it printed. A line is represented by the values its f-string
    interpolates.
\<close>

subsection \<open>Strings\<close>

text \<open>\<^verbatim>\<open>sub in s\<close> on strings: \<open>sub\<close> occurs in \<open>s\<close> as a contiguous run.\<close>

fun str_in :: "'c list \<Rightarrow> 'c list \<Rightarrow> bool" where
  "str_in sub [] = (sub = [])"
| "str_in sub (x # xs) = (prefix sub (x # xs) \<or> str_in sub xs)"

text \<open>
  \<^verbatim>\<open>str.lower\<close> on ASCII text (code points below 128): the letters A to Z move to a to z,
  all else stays. It stands for the builtin on ASCII text only; on other text the builtin
  does more.
\<close>

definition lower_char :: "char \<Rightarrow> char" where
  "lower_char ch =
     (case map_of (zip ''ABCDEFGHIJKLMNOPQRSTUVWXYZ'' ''abcdefghijklmnopqrstuvwxyz'') ch of
        None \<Rightarrow> ch
      | Some l \<Rightarrow> l)"

definition ascii_lower :: "string \<Rightarrow> string" where
  "ascii_lower s = map lower_char s"

subsection \<open>The builtin str.lower\<close>







subsection \<open>Dictionaries\<close>

definition is_dict :: "('k \<times> 'v) list \<Rightarrow> bool" where
  "is_dict d = distinct (map fst d)"

text \<open>\<^verbatim>\<open>d[k] = v\<close>: an existing key keeps its place and takes the new value, a new key goes last.\<close>

fun dict_set :: "('k \<times> 'v) list \<Rightarrow> 'k \<Rightarrow> 'v \<Rightarrow> ('k \<times> 'v) list" where
  "dict_set [] k v = [(k, v)]"
| "dict_set ((k', v') # d) k v =
     (if k' = k then (k, v) # d else (k', v') # dict_set d k v)"

text \<open>\<^verbatim>\<open>d.get(k, dflt)\<close>.\<close>

definition dict_get :: "('k \<times> 'v) list \<Rightarrow> 'k \<Rightarrow> 'v \<Rightarrow> 'v" where
  "dict_get d k dflt = (case map_of d k of None \<Rightarrow> dflt | Some v \<Rightarrow> v)"

text \<open>\<^verbatim>\<open>config.get(KEY, dflt)\<close> on one of the three optional fields of the configuration.\<close>

definition get_or :: "'a option \<Rightarrow> 'a \<Rightarrow> 'a" where
  "get_or field dflt = (case field of None \<Rightarrow> dflt | Some v \<Rightarrow> v)"

subsection \<open>Data model\<close>

record 'c content_filter_config =
  ENABLED :: "bool option"
  CATEGORIES :: "'c list list option"
  KEYWORDS :: "('c list \<times> 'c list list) list option"

text \<open>An RSS item: a dictionary read at the key \<^verbatim>\<open>title\<close> only; the rest is opaque.\<close>

record ('c, 'p) rss_item =
  item_title :: "'c list option"
  item_payload :: 'p

text \<open>Results: \<^verbatim>\<open>{source_id: {title: title_data}}\<close>.\<close>

type_synonym ('c, 'd) titles = "('c list \<times> 'd) list"
type_synonym ('s, 'c, 'd) results = "('s \<times> ('c, 'd) titles) list"

definition is_results :: "('s, 'c, 'd) results \<Rightarrow> bool" where
  "is_results results = (is_dict results \<and> list_all (\<lambda>(source_id, titles_data). is_dict titles_data) results)"

text \<open>
  The two summary lines, each by what it interpolates: the count before, the count after
  and the categories that \<^verbatim>\<open>', '.join\<close> joins.
\<close>

datatype 'c summary =
  ResultsSummary nat nat "'c list list"
| RssSummary nat nat "'c list list"

subsection \<open>matches\_content\_category\<close>

text \<open>The inner loop: \<^verbatim>\<open>for keyword in category_keywords\<close>, returning at the first hit.\<close>

fun keyword_loop :: "('c list \<Rightarrow> 'c list) \<Rightarrow> 'c list \<Rightarrow> 'c list list \<Rightarrow> bool" where
  "keyword_loop lower title_lower [] = False"
| "keyword_loop lower title_lower (keyword # rest) =
     (if str_in (lower keyword) title_lower then True
      else keyword_loop lower title_lower rest)"

text \<open>The outer loop: \<^verbatim>\<open>for category in categories\<close>.\<close>

fun category_loop ::
  "('c list \<Rightarrow> 'c list) \<Rightarrow> 'c list \<Rightarrow> ('c list \<times> 'c list list) list \<Rightarrow> 'c list list \<Rightarrow> bool"
where
  "category_loop lower title_lower keywords [] = False"
| "category_loop lower title_lower keywords (category # rest) =
     (let category_keywords = dict_get keywords category []
      in if keyword_loop lower title_lower category_keywords then True
         else category_loop lower title_lower keywords rest)"

definition matches_content_category ::
  "('c list \<Rightarrow> 'c list) \<Rightarrow> 'c list \<Rightarrow> 'c content_filter_config \<Rightarrow> bool"
where
  "matches_content_category lower title content_filter_config =
     (if \<not> get_or (ENABLED content_filter_config) False then True
      else
        let categories = get_or (CATEGORIES content_filter_config) [];
            keywords = get_or (KEYWORDS content_filter_config) []
        in if categories = [] \<or> keywords = [] then True
           else category_loop lower (lower title) keywords categories)"

subsection \<open>filter\_results\_by\_category\<close>

text \<open>The loop over the titles of one source, building \<^verbatim>\<open>filtered_titles\<close>.\<close>

fun titles_loop ::
  "('c list \<Rightarrow> 'c list) \<Rightarrow> 'c content_filter_config \<Rightarrow> ('c, 'd) titles \<Rightarrow> ('c, 'd) titles
     \<Rightarrow> ('c, 'd) titles"
where
  "titles_loop lower cfg [] filtered_titles = filtered_titles"
| "titles_loop lower cfg ((title, title_data) # rest) filtered_titles =
     titles_loop lower cfg rest
       (if matches_content_category lower title cfg
        then dict_set filtered_titles title title_data
        else filtered_titles)"

text \<open>
  The loop over the sources. Its state is \<^verbatim>\<open>filtered_results\<close>, \<^verbatim>\<open>total_before\<close> and
  \<^verbatim>\<open>total_after\<close>.
\<close>

fun sources_loop ::
  "('c list \<Rightarrow> 'c list) \<Rightarrow> 'c content_filter_config \<Rightarrow> ('s, 'c, 'd) results
     \<Rightarrow> ('s, 'c, 'd) results \<times> nat \<times> nat \<Rightarrow> ('s, 'c, 'd) results \<times> nat \<times> nat"
where
  "sources_loop lower cfg [] st = st"
| "sources_loop lower cfg ((source_id, titles_data) # rest)
       (filtered_results, total_before, total_after) =
     (let total_before' = total_before + length titles_data;
          filtered_titles = titles_loop lower cfg titles_data []
      in if filtered_titles \<noteq> []
         then sources_loop lower cfg rest
                (dict_set filtered_results source_id filtered_titles,
                 total_before', total_after + length filtered_titles)
         else sources_loop lower cfg rest (filtered_results, total_before', total_after))"

definition filter_results_by_category ::
  "('c list \<Rightarrow> 'c list) \<Rightarrow> ('s, 'c, 'd) results \<Rightarrow> 'c content_filter_config \<Rightarrow> bool
     \<Rightarrow> ('s, 'c, 'd) results \<times> 'c summary list"
where
  "filter_results_by_category lower results content_filter_config quiet =
     (if \<not> get_or (ENABLED content_filter_config) False then (results, [])
      else
        case sources_loop lower content_filter_config results ([], 0, 0) of
          (filtered_results, total_before, total_after) \<Rightarrow>
            (filtered_results,
             if \<not> quiet
             then [ResultsSummary total_before total_after
                     (get_or (CATEGORIES content_filter_config) [])]
             else []))"

subsection \<open>filter\_rss\_items\_by\_category\<close>

fun items_loop ::
  "('c list \<Rightarrow> 'c list) \<Rightarrow> 'c content_filter_config \<Rightarrow> ('c, 'p) rss_item list
     \<Rightarrow> ('c, 'p) rss_item list \<Rightarrow> ('c, 'p) rss_item list"
where
  "items_loop lower cfg [] filtered_items = filtered_items"
| "items_loop lower cfg (item # rest) filtered_items =
     (let title = get_or (item_title item) []
      in items_loop lower cfg rest
           (if matches_content_category lower title cfg then filtered_items @ [item]
            else filtered_items))"

definition filter_rss_items_by_category ::
  "('c list \<Rightarrow> 'c list) \<Rightarrow> ('c, 'p) rss_item list \<Rightarrow> 'c content_filter_config \<Rightarrow> bool
     \<Rightarrow> ('c, 'p) rss_item list \<times> 'c summary list"
where
  "filter_rss_items_by_category lower rss_items content_filter_config quiet =
     (if \<not> get_or (ENABLED content_filter_config) False then (rss_items, [])
      else if rss_items = [] then (rss_items, [])
      else
        let filtered_items = items_loop lower content_filter_config rss_items []
        in (filtered_items,
            if \<not> quiet
            then [RssSummary (length rss_items) (length filtered_items)
                    (get_or (CATEGORIES content_filter_config) [])]
            else []))"

section \<open>The loops as list operations\<close>

text \<open>
  On dictionaries (distinct keys) every assignment of the loops adds a new key, so each loop
  is a \<open>filter\<close> of its input. The lemmas below are what the properties rest on.
\<close>

lemma str_in_sublist: "str_in sub s = sublist sub s"
  by (induction s) (simp_all add: sublist_Cons_right)

lemma keyword_loop_iff:
  "keyword_loop lower title_lower kws = (\<exists>keyword \<in> set kws. str_in (lower keyword) title_lower)"
  by (induction kws) auto

lemma category_loop_iff:
  "category_loop lower title_lower keywords categories =
     (\<exists>category \<in> set categories. \<exists>keyword \<in> set (dict_get keywords category []).
        str_in (lower keyword) title_lower)"
  by (induction categories) (auto simp: keyword_loop_iff)

lemma dict_set_new: "k \<notin> fst ` set d \<Longrightarrow> dict_set d k v = d @ [(k, v)]"
  by (induction d) auto

lemma titles_loop_filter:
  "distinct (map fst (acc @ titles_data)) \<Longrightarrow>
   titles_loop lower cfg titles_data acc =
     acc @ filter (\<lambda>p. matches_content_category lower (fst p) cfg) titles_data"
proof (induction titles_data arbitrary: acc)
  case Nil
  then show ?case by simp
next
  case (Cons p rest)
  obtain title title_data where p: "p = (title, title_data)" by (cases p)
  from Cons.prems have new: "title \<notin> fst ` set acc" and d: "distinct (map fst ((acc @ [p]) @ rest))"
      and d': "distinct (map fst (acc @ rest))"
    by (auto simp: p)
  show ?case
  proof (cases "matches_content_category lower title cfg")
    case True
    then show ?thesis using Cons.IH[OF d] new by (simp add: p dict_set_new)
  next
    case False
    then show ?thesis using Cons.IH[OF d'] by (simp add: p)
  qed
qed

lemma items_loop_filter:
  "items_loop lower cfg rss_items acc =
     acc @ filter (\<lambda>item. matches_content_category lower (get_or (item_title item) []) cfg) rss_items"
  by (induction rss_items arbitrary: acc) (simp_all add: Let_def)


lemma sources_loop_filter:
  assumes "distinct (map fst (acc @ results))"
    and "\<forall>p \<in> set results. distinct (map fst (snd p))"
  shows "sources_loop lower cfg results (acc, tb, ta) =
     (acc @ filter (\<lambda>p. snd p \<noteq> [])
              (map (\<lambda>p. (fst p, filter (\<lambda>q. matches_content_category lower (fst q) cfg) (snd p)))
                 results),
      tb + sum_list (map (\<lambda>p. length (snd p)) results),
      ta + sum_list (map (\<lambda>p. length (snd p))
             (filter (\<lambda>p. snd p \<noteq> [])
                (map (\<lambda>p. (fst p, filter (\<lambda>q. matches_content_category lower (fst q) cfg) (snd p)))
                   results))))"
  using assms
proof (induction results arbitrary: acc tb ta)
  case Nil
  then show ?case by simp
next
  case (Cons p rest)
  obtain source_id titles_data where p: "p = (source_id, titles_data)" by (cases p)
  let ?kept = "filter (\<lambda>q. matches_content_category lower (fst q) cfg) titles_data"
  from Cons.prems have td: "distinct (map fst ([] @ titles_data))" by (simp add: p)
  have loop: "titles_loop lower cfg titles_data [] = ?kept"
    using titles_loop_filter[OF td] by simp
  from Cons.prems have new: "source_id \<notin> fst ` set acc"
    and d1: "distinct (map fst ((acc @ [(source_id, ?kept)]) @ rest))"
    and d2: "distinct (map fst (acc @ rest))"
    and r: "\<forall>p \<in> set rest. distinct (map fst (snd p))"
    by (auto simp: p)
  show ?case
  proof (cases "?kept = []")
    case True
    then show ?thesis using Cons.IH[OF d2 r] loop by (simp add: p Let_def)
  next
    case False
    then show ?thesis using Cons.IH[OF d1 r] loop new by (simp add: p dict_set_new Let_def)
  qed
qed

lemma is_results_iff:
  "is_results results =
     (distinct (map fst results) \<and> (\<forall>p \<in> set results. distinct (map fst (snd p))))"
  by (auto simp: is_results_def is_dict_def list_all_iff)

lemma filter_results_enabled:
  assumes "is_results results" and "ENABLED cfg = Some True"
  shows "filter_results_by_category lower results cfg quiet =
     (filter (\<lambda>p. snd p \<noteq> [])
        (map (\<lambda>p. (fst p, filter (\<lambda>q. matches_content_category lower (fst q) cfg) (snd p)))
           results),
      if quiet then []
      else [ResultsSummary
              (sum_list (map (\<lambda>p. length (snd p)) results))
              (sum_list (map (\<lambda>p. length (snd p))
                 (filter (\<lambda>p. snd p \<noteq> [])
                    (map (\<lambda>p. (fst p, filter (\<lambda>q. matches_content_category lower (fst q) cfg) (snd p)))
                       results))))
              (get_or (CATEGORIES cfg) [])])"
proof -
  from assms(1) have d: "distinct (map fst ([] @ results))"
    and r: "\<forall>p \<in> set results. distinct (map fst (snd p))"
    by (simp_all add: is_results_iff)
  show ?thesis
    using sources_loop_filter[OF d r, of lower cfg 0 0] assms(2)
    by (simp add: filter_results_by_category_def get_or_def)
qed

lemma filter_results_disabled:
  "ENABLED cfg \<noteq> Some True \<Longrightarrow> filter_results_by_category lower results cfg quiet = (results, [])"
  by (cases "ENABLED cfg") (auto simp: filter_results_by_category_def get_or_def)

lemma matches_disabled:
  "ENABLED cfg \<noteq> Some True \<Longrightarrow> matches_content_category lower title cfg"
  by (cases "ENABLED cfg") (auto simp: matches_content_category_def get_or_def)

lemma matches_incomplete:
  "get_or (CATEGORIES cfg) [] = [] \<or> get_or (KEYWORDS cfg) [] = [] \<Longrightarrow>
   matches_content_category lower title cfg"
  by (auto simp: matches_content_category_def Let_def)

lemma filter_rss_items_fst:
  "fst (filter_rss_items_by_category lower rss_items cfg quiet) =
     filter (\<lambda>item. matches_content_category lower (get_or (item_title item) []) cfg) rss_items"
proof (cases "ENABLED cfg = Some True")
  case True
  then show ?thesis
    by (simp add: filter_rss_items_by_category_def get_or_def Let_def items_loop_filter)
next
  case False
  then have "filter_rss_items_by_category lower rss_items cfg quiet = (rss_items, [])"
    by (cases "ENABLED cfg") (auto simp: filter_rss_items_by_category_def get_or_def)
  then show ?thesis using False by (simp add: matches_disabled)
qed

lemma is_results_kept:
  assumes "is_results results"
  shows "is_results (filter (\<lambda>p. snd p \<noteq> [])
        (map (\<lambda>p. (fst p, filter P (snd p))) results))"
proof -
  have "distinct (map fst (filter (\<lambda>p. snd p \<noteq> []) (map (\<lambda>p. (fst p, filter P (snd p))) results)))"
    if "distinct (map fst results)" for results :: "('a \<times> ('b list \<times> 'c) list) list"
    using that by (induction results) (auto simp: image_iff)
  moreover have "distinct (map fst (filter P xs))" if "distinct (map fst xs)" for xs :: "('b list \<times> 'c) list"
    using that by (simp add: distinct_map_filter)
  ultimately show ?thesis using assms by (auto simp: is_results_iff)
qed

lemma kept_sources_idem:
  "filter (\<lambda>p. snd p \<noteq> []) (map (\<lambda>p. (fst p, filter P (snd p)))
      (filter (\<lambda>p. snd p \<noteq> []) (map (\<lambda>p. (fst p, filter P (snd p))) results))) =
   filter (\<lambda>p. snd p \<noteq> []) (map (\<lambda>p. (fst p, filter P (snd p))) results)"
  by (induction results) auto

lemma dict_entry_unique:
  "distinct (map fst d) \<Longrightarrow> p \<in> set d \<Longrightarrow> p' \<in> set d \<Longrightarrow> fst p = fst p' \<Longrightarrow> p = p'"
  by (metis eq_key_imp_eq_value prod.collapse)

lemma kept_sources_member:
  "(p' \<in> set (filter (\<lambda>p. snd p \<noteq> []) (map (\<lambda>p. (fst p, g (snd p))) results)))
     = (\<exists>p \<in> set results. p' = (fst p, g (snd p)) \<and> g (snd p) \<noteq> [])"
  by auto

lemma kept_sources_keys_subseq:
  "subseq (map fst (filter Q (map (\<lambda>p. (fst p, g (snd p))) results))) (map fst results)"
  by (induction results) auto

lemma filter_results_cases:
  assumes "is_results results"
  shows "fst (filter_results_by_category lower results cfg quiet) = results
       \<or> fst (filter_results_by_category lower results cfg quiet)
           = filter (\<lambda>p. snd p \<noteq> [])
               (map (\<lambda>p. (fst p, filter (\<lambda>q. matches_content_category lower (fst q) cfg) (snd p)))
                  results)"
proof (cases "ENABLED cfg = Some True")
  case True
  then show ?thesis by (simp add: filter_results_enabled[OF assms])
next
  case False
  then show ?thesis by (simp add: filter_results_disabled)
qed




section \<open>Properties\<close>

subsection \<open>Pass-through when disabled\<close>

text \<open>
  Claim C1. When the \<^verbatim>\<open>ENABLED\<close> flag of the configuration is false or absent, the matcher
  returns true for every title, and \<^verbatim>\<open>filter_results_by_category\<close> and
  \<^verbatim>\<open>filter_rss_items_by_category\<close> both return their input as it is (same elements, same
  order), whatever the input; neither prints a summary line.
\<close>

theorem disabled_is_pass_through:
  assumes "ENABLED cfg = Some False \<or> ENABLED cfg = None"
  shows "matches_content_category lower title cfg
       \<and> filter_results_by_category lower results cfg quiet = (results, [])
       \<and> filter_rss_items_by_category lower rss_items cfg quiet = (rss_items, [])"
proof -
  from assms have off: "ENABLED cfg \<noteq> Some True" by auto
  then have "\<not> get_or (ENABLED cfg) False"
    by (cases "ENABLED cfg") (auto simp: get_or_def)
  then have "filter_rss_items_by_category lower rss_items cfg quiet = (rss_items, [])"
    by (simp add: filter_rss_items_by_category_def)
  with off show ?thesis
    by (simp add: matches_disabled filter_results_disabled)
qed

text \<open>An instance: the key \<^verbatim>\<open>ENABLED\<close> is absent from the configuration.\<close>

theorem disabled_is_pass_through_witness:
  "(ENABLED \<lparr>ENABLED = None, CATEGORIES = Some [''finance''],
       KEYWORDS = Some [(''finance'', [''stock'', ''market''])]\<rparr> = Some False
    \<or> ENABLED \<lparr>ENABLED = None, CATEGORIES = Some [''finance''],
       KEYWORDS = Some [(''finance'', [''stock'', ''market''])]\<rparr> = None)
   \<and> matches_content_category ascii_lower ''Sports update''
        \<lparr>ENABLED = None, CATEGORIES = Some [''finance''],
         KEYWORDS = Some [(''finance'', [''stock'', ''market''])]\<rparr>
   \<and> filter_results_by_category ascii_lower
        [(''src1'', [(''A stock tip'', ()), (''Weather forecast'', ())]),
         (''src2'', [(''Sports update'', ())]), (''src3'', [])]
        \<lparr>ENABLED = None, CATEGORIES = Some [''finance''],
         KEYWORDS = Some [(''finance'', [''stock'', ''market''])]\<rparr> False
      = ([(''src1'', [(''A stock tip'', ()), (''Weather forecast'', ())]),
          (''src2'', [(''Sports update'', ())]), (''src3'', [])], [])
   \<and> filter_rss_items_by_category ascii_lower
        [\<lparr>item_title = Some ''Local weather today'', item_payload = ()\<rparr>,
         \<lparr>item_title = None, item_payload = ()\<rparr>]
        \<lparr>ENABLED = None, CATEGORIES = Some [''finance''],
         KEYWORDS = Some [(''finance'', [''stock'', ''market''])]\<rparr> False
      = ([\<lparr>item_title = Some ''Local weather today'', item_payload = ()\<rparr>,
          \<lparr>item_title = None, item_payload = ()\<rparr>], [])"
  using disabled_is_pass_through
    [of "\<lparr>ENABLED = None, CATEGORIES = Some [''finance''],
          KEYWORDS = Some [(''finance'', [''stock'', ''market''])]\<rparr>"
        ascii_lower "''Sports update''"
        "[(''src1'', [(''A stock tip'', ()), (''Weather forecast'', ())]),
          (''src2'', [(''Sports update'', ())]), (''src3'', [])]"
        False
        "[\<lparr>item_title = Some ''Local weather today'', item_payload = ()\<rparr>,
          \<lparr>item_title = None, item_payload = ()\<rparr>]"]
  by simp

subsection \<open>The empty item list\<close>

text \<open>
  Claim C10. \<^verbatim>\<open>filter_rss_items_by_category\<close> applied to an empty item list returns the
  empty list and prints no summary line, whatever the \<^verbatim>\<open>quiet\<close> flag. This holds for every
  configuration, the enabled ones in particular.
\<close>

theorem filter_rss_items_empty:
  "filter_rss_items_by_category lower [] cfg quiet = ([], [])"
  by (simp add: filter_rss_items_by_category_def)

text \<open>An instance with an enabled configuration, at both values of \<^verbatim>\<open>quiet\<close>.\<close>

theorem filter_rss_items_empty_witness:
  "filter_rss_items_by_category ascii_lower ([] :: (char, unit) rss_item list)
     \<lparr>ENABLED = Some True, CATEGORIES = Some [''finance''],
      KEYWORDS = Some [(''finance'', [''stock'', ''market''])]\<rparr> False = ([], [])
   \<and> filter_rss_items_by_category ascii_lower ([] :: (char, unit) rss_item list)
     \<lparr>ENABLED = Some True, CATEGORIES = Some [''finance''],
      KEYWORDS = Some [(''finance'', [''stock'', ''market''])]\<rparr> True = ([], [])"
  using filter_rss_items_empty[of ascii_lower
      "\<lparr>ENABLED = Some True, CATEGORIES = Some [''finance''],
        KEYWORDS = Some [(''finance'', [''stock'', ''market''])]\<rparr>" False]
    filter_rss_items_empty[of ascii_lower
      "\<lparr>ENABLED = Some True, CATEGORIES = Some [''finance''],
        KEYWORDS = Some [(''finance'', [''stock'', ''market''])]\<rparr>" True]
  by simp

subsection \<open>Fail-open on an incomplete configuration\<close>

text \<open>
  Claim C2 says that with \<^verbatim>\<open>ENABLED\<close> true and no categories or no keywords the output of
  both filters equals the input. For \<^verbatim>\<open>filter_results_by_category\<close> this fails: the loop
  keeps a source only \<^verbatim>\<open>if filtered_titles\<close>, so a source that came in with no titles is
  dropped although no title was rejected.
\<close>

theorem incomplete_config_results_counterexample:
  "fst (filter_results_by_category ascii_lower
          [(''src1'', [(''A stock tip'', ())]), (''src2'', [])]
          \<lparr>ENABLED = Some True, CATEGORIES = Some [], KEYWORDS = Some []\<rparr> True)
   \<noteq> [(''src1'', [(''A stock tip'', ())]), (''src2'', [])]"
  by (simp add: filter_results_by_category_def get_or_def matches_content_category_def)

text \<open>
  Claim C2, amended. With \<^verbatim>\<open>ENABLED\<close> true and an empty (or absent) \<^verbatim>\<open>CATEGORIES\<close> or
  \<^verbatim>\<open>KEYWORDS\<close>, the matcher returns true for every title, the output of
  \<^verbatim>\<open>filter_rss_items_by_category\<close> equals its input, and the output of
  \<^verbatim>\<open>filter_results_by_category\<close> is its input without the sources whose title dictionary
  is empty; it equals the input exactly when no source has an empty title dictionary.
\<close>

theorem incomplete_config_fail_open:
  assumes "ENABLED cfg = Some True"
    and "get_or (CATEGORIES cfg) [] = [] \<or> get_or (KEYWORDS cfg) [] = []"
    and "is_results results"
  shows "matches_content_category lower title cfg
       \<and> fst (filter_rss_items_by_category lower rss_items cfg quiet) = rss_items
       \<and> fst (filter_results_by_category lower results cfg quiet)
           = filter (\<lambda>p. snd p \<noteq> []) results
       \<and> (list_all (\<lambda>p. snd p \<noteq> []) results
            = (fst (filter_results_by_category lower results cfg quiet) = results))"
proof -
  have m: "matches_content_category lower t cfg" for t
    using assms(2) by (rule matches_incomplete)
  have rss: "fst (filter_rss_items_by_category lower rss_items cfg quiet) = rss_items"
    by (simp add: filter_rss_items_fst m)
  have "fst (filter_results_by_category lower results cfg quiet)
      = filter (\<lambda>p. snd p \<noteq> []) (map (\<lambda>p. (fst p, filter (\<lambda>q. True) (snd p))) results)"
    by (simp add: filter_results_enabled[OF assms(3) assms(1)] m)
  also have "\<dots> = filter (\<lambda>p. snd p \<noteq> []) results"
    by (simp add: map_idI)
  finally have res: "fst (filter_results_by_category lower results cfg quiet)
      = filter (\<lambda>p. snd p \<noteq> []) results"
    .
  have "list_all (\<lambda>p. snd p \<noteq> []) results
      = (filter (\<lambda>p. snd p \<noteq> []) results = results)"
    by (simp add: filter_id_conv list_all_iff)
  with m rss res show ?thesis by simp
qed

text \<open>An instance: categories given, the key \<^verbatim>\<open>KEYWORDS\<close> absent, one source without titles.\<close>

theorem incomplete_config_fail_open_witness:
  "ENABLED \<lparr>ENABLED = Some True, CATEGORIES = Some [''finance''], KEYWORDS = None\<rparr> = Some True
   \<and> (get_or (CATEGORIES \<lparr>ENABLED = Some True, CATEGORIES = Some [''finance''],
                          KEYWORDS = None\<rparr>) [] = []
      \<or> get_or (KEYWORDS \<lparr>ENABLED = Some True, CATEGORIES = Some [''finance''],
                          KEYWORDS = None\<rparr>) [] = [])
   \<and> is_results [(''src1'', [(''A stock tip'', ())]), (''src2'', [])]
   \<and> matches_content_category ascii_lower ''Sports update''
        \<lparr>ENABLED = Some True, CATEGORIES = Some [''finance''], KEYWORDS = None\<rparr>
   \<and> fst (filter_rss_items_by_category ascii_lower
        [\<lparr>item_title = Some ''Local weather today'', item_payload = ()\<rparr>]
        \<lparr>ENABLED = Some True, CATEGORIES = Some [''finance''], KEYWORDS = None\<rparr> False)
      = [\<lparr>item_title = Some ''Local weather today'', item_payload = ()\<rparr>]
   \<and> fst (filter_results_by_category ascii_lower
        [(''src1'', [(''A stock tip'', ())]), (''src2'', [])]
        \<lparr>ENABLED = Some True, CATEGORIES = Some [''finance''], KEYWORDS = None\<rparr> False)
      = [(''src1'', [(''A stock tip'', ())])]"
proof -
  have h1: "ENABLED \<lparr>ENABLED = Some True, CATEGORIES = Some [''finance''],
      KEYWORDS = None\<rparr> = Some True"
    by simp
  have h2: "get_or (CATEGORIES \<lparr>ENABLED = Some True, CATEGORIES = Some [''finance''],
                          KEYWORDS = None\<rparr>) [] = []
      \<or> get_or (KEYWORDS \<lparr>ENABLED = Some True, CATEGORIES = Some [''finance''],
                          KEYWORDS = None\<rparr>) [] = []"
    by (simp add: get_or_def)
  have h3: "is_results [(''src1'', [(''A stock tip'', ())]), (''src2'', [])]"
    by (simp add: is_results_def is_dict_def)
  show ?thesis
    using h1 h2 h3
      incomplete_config_fail_open[OF h1 h2 h3, of ascii_lower "''Sports update''"
        "[\<lparr>item_title = Some ''Local weather today'', item_payload = ()\<rparr>]" False]
    by simp
qed

subsection \<open>Zero-length keywords\<close>

text \<open>
  Claim C3 says that a zero-length keyword never makes the matcher return true. The code
  tests \<^verbatim>\<open>keyword.lower() in title_lower\<close> for every keyword, and the empty string is in
  every string: with the empty keyword as the only keyword, the empty title and any other
  title match.
\<close>

theorem empty_keyword_matches_counterexample:
  "matches_content_category ascii_lower ''''
     \<lparr>ENABLED = Some True, CATEGORIES = Some [''finance''],
      KEYWORDS = Some [(''finance'', [''''])]\<rparr>
   \<and> matches_content_category ascii_lower ''Weather forecast''
     \<lparr>ENABLED = Some True, CATEGORIES = Some [''finance''],
      KEYWORDS = Some [(''finance'', [''''])]\<rparr>"
  by (simp add: matches_content_category_def get_or_def dict_get_def ascii_lower_def)

text \<open>
  Claim C3, amended. For an enabled configuration with categories and keywords, a title
  matches exactly when some keyword of a listed category, of any length, is after lowering
  a contiguous part of the lowered title. Zero-length keywords are not skipped: one among
  the keywords of a listed category makes every title match, the empty title too
  (\<^verbatim>\<open>''.lower()\<close> is the empty string).
\<close>

theorem matches_iff_some_keyword:
  assumes "ENABLED cfg = Some True"
    and "get_or (CATEGORIES cfg) [] \<noteq> []"
    and "get_or (KEYWORDS cfg) [] \<noteq> []"
  shows "matches_content_category lower title cfg
       = (\<exists>category \<in> set (get_or (CATEGORIES cfg) []).
            \<exists>keyword \<in> set (dict_get (get_or (KEYWORDS cfg) []) category []).
              sublist (lower keyword) (lower title))
       \<and> ((\<exists>category \<in> set (get_or (CATEGORIES cfg) []).
              [] \<in> set (dict_get (get_or (KEYWORDS cfg) []) category [])) \<and> lower [] = []
            \<longrightarrow> matches_content_category lower title cfg)"
proof -
  have iff: "matches_content_category lower title cfg
       = (\<exists>category \<in> set (get_or (CATEGORIES cfg) []).
            \<exists>keyword \<in> set (dict_get (get_or (KEYWORDS cfg) []) category []).
              sublist (lower keyword) (lower title))"
    using assms
    by (simp add: matches_content_category_def get_or_def category_loop_iff str_in_sublist)
  have "matches_content_category lower title cfg"
    if "category \<in> set (get_or (CATEGORIES cfg) [])"
      and "[] \<in> set (dict_get (get_or (KEYWORDS cfg) []) category [])"
      and "lower [] = []" for category
  proof -
    have "sublist (lower []) (lower title)" using that(3) by simp
    with that(1,2) show ?thesis unfolding iff by blast
  qed
  with iff show ?thesis by blast
qed

text \<open>An instance: the empty keyword and the empty title.\<close>

theorem matches_iff_some_keyword_witness:
  "ENABLED \<lparr>ENABLED = Some True, CATEGORIES = Some [''finance''],
            KEYWORDS = Some [(''finance'', [''''])]\<rparr> = Some True
   \<and> get_or (CATEGORIES \<lparr>ENABLED = Some True, CATEGORIES = Some [''finance''],
            KEYWORDS = Some [(''finance'', [''''])]\<rparr>) [] \<noteq> []
   \<and> get_or (KEYWORDS \<lparr>ENABLED = Some True, CATEGORIES = Some [''finance''],
            KEYWORDS = Some [(''finance'', [''''])]\<rparr>) [] \<noteq> []
   \<and> matches_content_category ascii_lower ''''
        \<lparr>ENABLED = Some True, CATEGORIES = Some [''finance''],
         KEYWORDS = Some [(''finance'', [''''])]\<rparr>
   \<and> sublist (ascii_lower '''') (ascii_lower '''')"
proof -
  have h1: "ENABLED \<lparr>ENABLED = Some True, CATEGORIES = Some [''finance''],
            KEYWORDS = Some [(''finance'', [''''])]\<rparr> = Some True"
    by simp
  have h2: "get_or (CATEGORIES \<lparr>ENABLED = Some True, CATEGORIES = Some [''finance''],
            KEYWORDS = Some [(''finance'', [''''])]\<rparr>) [] \<noteq> []"
    by (simp add: get_or_def)
  have h3: "get_or (KEYWORDS \<lparr>ENABLED = Some True, CATEGORIES = Some [''finance''],
            KEYWORDS = Some [(''finance'', [''''])]\<rparr>) [] \<noteq> []"
    by (simp add: get_or_def)
  show ?thesis
    using h1 h2 h3 matches_iff_some_keyword[OF h1 h2 h3, of ascii_lower "''''"]
    by (simp add: get_or_def dict_get_def ascii_lower_def)
qed

subsection \<open>Sources without titles\<close>

text \<open>
  Claim C4. With \<^verbatim>\<open>ENABLED\<close> true, \<^verbatim>\<open>filter_results_by_category\<close> leaves out of its
  output every source whose title dictionary is empty in the input, so the output then
  differs from the input; this holds for incomplete configurations too, where the matcher
  passes every title.
\<close>

theorem empty_sources_omitted:
  assumes "is_results results"
    and "ENABLED cfg = Some True"
    and "(source_id, []) \<in> set results"
  shows "source_id \<notin> fst ` set (fst (filter_results_by_category lower results cfg quiet))
       \<and> fst (filter_results_by_category lower results cfg quiet) \<noteq> results"
proof -
  let ?out = "fst (filter_results_by_category lower results cfg quiet)"
  let ?P = "\<lambda>q. matches_content_category lower (fst q) cfg"
  from assms(1) have d: "distinct (map fst results)" by (simp add: is_results_iff)
  have out: "?out = filter (\<lambda>p. snd p \<noteq> []) (map (\<lambda>p. (fst p, filter ?P (snd p))) results)"
    by (simp add: filter_results_enabled[OF assms(1,2)])
  have absent: "source_id \<notin> fst ` set ?out"
  proof
    assume "source_id \<in> fst ` set ?out"
    then obtain p' where "p' \<in> set ?out" and "fst p' = source_id" by auto
    then obtain p where p: "p \<in> set results" "fst p = source_id" "filter ?P (snd p) \<noteq> []"
      unfolding out kept_sources_member by auto
    from dict_entry_unique[OF d p(1) assms(3)] p(2) have "p = (source_id, [])" by simp
    with p(3) show False by simp
  qed
  moreover have "?out \<noteq> results"
  proof
    assume "?out = results"
    with assms(3) have "source_id \<in> fst ` set ?out" by force
    with absent show False by contradiction
  qed
  ultimately show ?thesis by simp
qed

text \<open>
  An instance with an incomplete configuration: no title is rejected, and the source without
  titles is gone from the output.
\<close>

theorem empty_sources_omitted_witness:
  "is_results [(''src1'', [(''A stock tip'', ())]), (''src2'', [])]
   \<and> ENABLED \<lparr>ENABLED = Some True, CATEGORIES = Some [], KEYWORDS = Some []\<rparr> = Some True
   \<and> (''src2'', []) \<in> set [(''src1'', [(''A stock tip'', ())]), (''src2'', [])]
   \<and> ''src2'' \<notin> fst ` set (fst (filter_results_by_category ascii_lower
         [(''src1'', [(''A stock tip'', ())]), (''src2'', [])]
         \<lparr>ENABLED = Some True, CATEGORIES = Some [], KEYWORDS = Some []\<rparr> False))
   \<and> fst (filter_results_by_category ascii_lower
         [(''src1'', [(''A stock tip'', ())]), (''src2'', [])]
         \<lparr>ENABLED = Some True, CATEGORIES = Some [], KEYWORDS = Some []\<rparr> False)
       \<noteq> [(''src1'', [(''A stock tip'', ())]), (''src2'', [])]
   \<and> matches_content_category ascii_lower ''A stock tip''
         \<lparr>ENABLED = Some True, CATEGORIES = Some [], KEYWORDS = Some []\<rparr>"
proof -
  have h1: "is_results [(''src1'', [(''A stock tip'', ())]), (''src2'', [])]"
    by (simp add: is_results_def is_dict_def)
  have h2: "ENABLED \<lparr>ENABLED = Some True, CATEGORIES = Some ([] :: string list),
      KEYWORDS = Some []\<rparr> = Some True"
    by simp
  have h3: "(''src2'', []) \<in> set [(''src1'', [(''A stock tip'', ())]), (''src2'', [])]"
    by simp
  have m: "matches_content_category ascii_lower ''A stock tip''
         \<lparr>ENABLED = Some True, CATEGORIES = Some [], KEYWORDS = Some []\<rparr>"
    by (simp add: matches_content_category_def get_or_def)
  show ?thesis
    using h1 h2 h3 m empty_sources_omitted[OF h1 h2 h3, of ascii_lower False]
    by simp
qed

subsection \<open>A source is kept exactly when one of its titles matches\<close>

text \<open>
  Claim C5. With \<^verbatim>\<open>ENABLED\<close> true, \<^verbatim>\<open>filter_results_by_category\<close> keeps a source of the
  input exactly when at least one of its titles matches; a source all of whose titles were
  filtered out is dropped, never kept with an empty title dictionary. The output is the
  input with each title dictionary cut down to its matching titles and the sources left
  empty removed, and the summary line (unless \<^verbatim>\<open>quiet\<close>) gives the number of titles of
  the input and of the output. Scenario B of the specification is the instance proved as
  the witness: only \<^verbatim>\<open>src1\<close> with its one matching title is returned, and the counts are
  3 and 1.
\<close>

theorem sources_kept_iff_some_title_matches:
  assumes "is_results results"
    and "ENABLED cfg = Some True"
  shows "(\<forall>p \<in> set results.
            (fst p \<in> fst ` set (fst (filter_results_by_category lower results cfg quiet)))
              = (\<exists>q \<in> set (snd p). matches_content_category lower (fst q) cfg))
       \<and> [] \<notin> snd ` set (fst (filter_results_by_category lower results cfg quiet))
       \<and> fst (filter_results_by_category lower results cfg quiet)
           = filter (\<lambda>p. snd p \<noteq> [])
               (map (\<lambda>p. (fst p, filter (\<lambda>q. matches_content_category lower (fst q) cfg) (snd p)))
                  results)
       \<and> snd (filter_results_by_category lower results cfg quiet)
           = (if quiet then []
              else [ResultsSummary
                      (sum_list (map (\<lambda>p. length (snd p)) results))
                      (sum_list (map (\<lambda>p. length (snd p))
                         (fst (filter_results_by_category lower results cfg quiet))))
                      (get_or (CATEGORIES cfg) [])])"
proof -
  let ?out = "fst (filter_results_by_category lower results cfg quiet)"
  let ?P = "\<lambda>q. matches_content_category lower (fst q) cfg"
  from assms(1) have d: "distinct (map fst results)" by (simp add: is_results_iff)
  have out: "?out = filter (\<lambda>p. snd p \<noteq> []) (map (\<lambda>p. (fst p, filter ?P (snd p))) results)"
    by (simp add: filter_results_enabled[OF assms])
  have printed: "snd (filter_results_by_category lower results cfg quiet)
           = (if quiet then []
              else [ResultsSummary
                      (sum_list (map (\<lambda>p. length (snd p)) results))
                      (sum_list (map (\<lambda>p. length (snd p)) ?out))
                      (get_or (CATEGORIES cfg) [])])"
    by (simp add: filter_results_enabled[OF assms])
  have keys: "(fst p \<in> fst ` set ?out) = (\<exists>q \<in> set (snd p). ?P q)" if p: "p \<in> set results" for p
  proof
    assume "fst p \<in> fst ` set ?out"
    then obtain p' where "p' \<in> set ?out" and "fst p' = fst p" by auto
    then obtain p0 where p0: "p0 \<in> set results" "fst p0 = fst p" "filter ?P (snd p0) \<noteq> []"
      unfolding out kept_sources_member by auto
    from dict_entry_unique[OF d p0(1) p p0(2)] p0(3) have "filter ?P (snd p) \<noteq> []" by simp
    then show "\<exists>q \<in> set (snd p). ?P q" by (simp add: filter_empty_conv)
  next
    assume "\<exists>q \<in> set (snd p). ?P q"
    then have "filter ?P (snd p) \<noteq> []" by (simp add: filter_empty_conv)
    with p have "(fst p, filter ?P (snd p)) \<in> set ?out"
      unfolding out kept_sources_member by blast
    then show "fst p \<in> fst ` set ?out" by (rule image_eqI[rotated]) simp
  qed
  have nonempty: "[] \<notin> snd ` set ?out"
    unfolding out by auto
  from keys nonempty out printed show ?thesis by blast
qed

text \<open>Scenario B.\<close>

theorem sources_kept_iff_some_title_matches_witness:
  "is_results [(''src1'', [(''A stock tip'', ()), (''Weather forecast'', ())]),
               (''src2'', [(''Sports update'', ())])]
   \<and> ENABLED \<lparr>ENABLED = Some True, CATEGORIES = Some [''finance''],
               KEYWORDS = Some [(''finance'', [''stock'', ''market''])]\<rparr> = Some True
   \<and> filter_results_by_category ascii_lower
        [(''src1'', [(''A stock tip'', ()), (''Weather forecast'', ())]),
         (''src2'', [(''Sports update'', ())])]
        \<lparr>ENABLED = Some True, CATEGORIES = Some [''finance''],
         KEYWORDS = Some [(''finance'', [''stock'', ''market''])]\<rparr> False
       = ([(''src1'', [(''A stock tip'', ())])], [ResultsSummary 3 1 [''finance'']])"
proof -
  have h1: "is_results [(''src1'', [(''A stock tip'', ()), (''Weather forecast'', ())]),
               (''src2'', [(''Sports update'', ())])]"
    by (simp add: is_results_def is_dict_def)
  have h2: "ENABLED \<lparr>ENABLED = Some True, CATEGORIES = Some [''finance''],
               KEYWORDS = Some [(''finance'', [''stock'', ''market''])]\<rparr> = Some True"
    by simp
  have m1: "matches_content_category ascii_lower ''A stock tip''
       \<lparr>ENABLED = Some True, CATEGORIES = Some [''finance''],
        KEYWORDS = Some [(''finance'', [''stock'', ''market''])]\<rparr>"
    by (simp add: matches_content_category_def get_or_def dict_get_def ascii_lower_def
        lower_char_def)
  have m2: "\<not> matches_content_category ascii_lower ''Weather forecast''
       \<lparr>ENABLED = Some True, CATEGORIES = Some [''finance''],
        KEYWORDS = Some [(''finance'', [''stock'', ''market''])]\<rparr>"
    by (simp add: matches_content_category_def get_or_def dict_get_def ascii_lower_def
        lower_char_def)
  have m3: "\<not> matches_content_category ascii_lower ''Sports update''
       \<lparr>ENABLED = Some True, CATEGORIES = Some [''finance''],
        KEYWORDS = Some [(''finance'', [''stock'', ''market''])]\<rparr>"
    by (simp add: matches_content_category_def get_or_def dict_get_def ascii_lower_def
        lower_char_def)
  show ?thesis
    using h1 h2 sources_kept_iff_some_title_matches[OF h1 h2, of ascii_lower False]
    by (simp add: prod_eq_iff m1 m2 m3 get_or_def)
qed

subsection \<open>Order preservation\<close>

text \<open>
  Claim C6. For every configuration and every input, what the filters keep stays in the
  order of the input: the output of \<^verbatim>\<open>filter_rss_items_by_category\<close> is a subsequence of the
  item list, the sources of the output of \<^verbatim>\<open>filter_results_by_category\<close> are a
  subsequence of the sources of the input, and the titles kept for a source are a
  subsequence of the titles that source has in the input.
\<close>

theorem order_preserved:
  assumes "is_results results"
  shows "subseq (fst (filter_rss_items_by_category lower rss_items cfg quiet)) rss_items
       \<and> subseq (map fst (fst (filter_results_by_category lower results cfg quiet)))
                (map fst results)
       \<and> (\<forall>p' \<in> set (fst (filter_results_by_category lower results cfg quiet)).
            \<exists>p \<in> set results. fst p = fst p' \<and> subseq (snd p') (snd p))"
proof -
  let ?out = "fst (filter_results_by_category lower results cfg quiet)"
  let ?P = "\<lambda>q. matches_content_category lower (fst q) cfg"
  have items: "subseq (fst (filter_rss_items_by_category lower rss_items cfg quiet)) rss_items"
    by (simp add: filter_rss_items_fst)
  from filter_results_cases[OF assms, of lower cfg quiet]
  have "subseq (map fst ?out) (map fst results)
       \<and> (\<forall>p' \<in> set ?out. \<exists>p \<in> set results. fst p = fst p' \<and> subseq (snd p') (snd p))"
  proof
    assume same: "?out = results"
    have "\<exists>p \<in> set results. fst p = fst p' \<and> subseq (snd p') (snd p)"
      if "p' \<in> set results" for p'
      using that by (intro bexI[of _ p']) simp_all
    with same show ?thesis by simp
  next
    assume out: "?out = filter (\<lambda>p. snd p \<noteq> []) (map (\<lambda>p. (fst p, filter ?P (snd p))) results)"
    have "\<exists>p \<in> set results. fst p = fst p' \<and> subseq (snd p') (snd p)"
      if "p' \<in> set ?out" for p'
    proof -
      from that obtain p where "p \<in> set results" and "p' = (fst p, filter ?P (snd p))"
        unfolding out kept_sources_member by auto
      then show ?thesis by (intro bexI[of _ p]) simp_all
    qed
    moreover have "subseq (map fst ?out) (map fst results)"
      unfolding out by (rule kept_sources_keys_subseq)
    ultimately show ?thesis by simp
  qed
  with items show ?thesis by simp
qed

text \<open>An instance on the configuration of scenarios A and B: the second of three is dropped.\<close>

theorem order_preserved_witness:
  "is_results [(''src1'', [(''A stock tip'', ()), (''Weather forecast'', ()),
                           (''Market closes flat'', ())]),
               (''src2'', [(''Sports update'', ())]),
               (''src3'', [(''Stock prices surge'', ())])]
   \<and> fst (filter_rss_items_by_category ascii_lower
        [\<lparr>item_title = Some ''Stock prices surge'', item_payload = ()\<rparr>,
         \<lparr>item_title = Some ''Local weather today'', item_payload = ()\<rparr>,
         \<lparr>item_title = Some ''Market closes flat'', item_payload = ()\<rparr>]
        \<lparr>ENABLED = Some True, CATEGORIES = Some [''finance''],
         KEYWORDS = Some [(''finance'', [''stock'', ''market''])]\<rparr> False)
       = [\<lparr>item_title = Some ''Stock prices surge'', item_payload = ()\<rparr>,
          \<lparr>item_title = Some ''Market closes flat'', item_payload = ()\<rparr>]
   \<and> fst (filter_results_by_category ascii_lower
        [(''src1'', [(''A stock tip'', ()), (''Weather forecast'', ()),
                     (''Market closes flat'', ())]),
         (''src2'', [(''Sports update'', ())]),
         (''src3'', [(''Stock prices surge'', ())])]
        \<lparr>ENABLED = Some True, CATEGORIES = Some [''finance''],
         KEYWORDS = Some [(''finance'', [''stock'', ''market''])]\<rparr> False)
       = [(''src1'', [(''A stock tip'', ()), (''Market closes flat'', ())]),
          (''src3'', [(''Stock prices surge'', ())])]
   \<and> subseq (fst (filter_rss_items_by_category ascii_lower
        [\<lparr>item_title = Some ''Stock prices surge'', item_payload = ()\<rparr>,
         \<lparr>item_title = Some ''Local weather today'', item_payload = ()\<rparr>,
         \<lparr>item_title = Some ''Market closes flat'', item_payload = ()\<rparr>]
        \<lparr>ENABLED = Some True, CATEGORIES = Some [''finance''],
         KEYWORDS = Some [(''finance'', [''stock'', ''market''])]\<rparr> False))
        [\<lparr>item_title = Some ''Stock prices surge'', item_payload = ()\<rparr>,
         \<lparr>item_title = Some ''Local weather today'', item_payload = ()\<rparr>,
         \<lparr>item_title = Some ''Market closes flat'', item_payload = ()\<rparr>]
   \<and> subseq (map fst (fst (filter_results_by_category ascii_lower
        [(''src1'', [(''A stock tip'', ()), (''Weather forecast'', ()),
                     (''Market closes flat'', ())]),
         (''src2'', [(''Sports update'', ())]),
         (''src3'', [(''Stock prices surge'', ())])]
        \<lparr>ENABLED = Some True, CATEGORIES = Some [''finance''],
         KEYWORDS = Some [(''finance'', [''stock'', ''market''])]\<rparr> False)))
        [''src1'', ''src2'', ''src3'']"
proof -
  let ?cfg = "\<lparr>ENABLED = Some True, CATEGORIES = Some [''finance''],
         KEYWORDS = Some [(''finance'', [''stock'', ''market''])]\<rparr>"
  let ?results = "[(''src1'', [(''A stock tip'', ()), (''Weather forecast'', ()),
                     (''Market closes flat'', ())]),
         (''src2'', [(''Sports update'', ())]),
         (''src3'', [(''Stock prices surge'', ())])]"
  let ?items = "[\<lparr>item_title = Some ''Stock prices surge'', item_payload = ()\<rparr>,
         \<lparr>item_title = Some ''Local weather today'', item_payload = ()\<rparr>,
         \<lparr>item_title = Some ''Market closes flat'', item_payload = ()\<rparr>]"
  have h: "is_results ?results"
    by (simp add: is_results_def is_dict_def)
  have en: "ENABLED ?cfg = Some True" by simp
  have m: "matches_content_category ascii_lower ''A stock tip'' ?cfg"
    "\<not> matches_content_category ascii_lower ''Weather forecast'' ?cfg"
    "matches_content_category ascii_lower ''Market closes flat'' ?cfg"
    "\<not> matches_content_category ascii_lower ''Sports update'' ?cfg"
    "matches_content_category ascii_lower ''Stock prices surge'' ?cfg"
    "\<not> matches_content_category ascii_lower ''Local weather today'' ?cfg"
    by (simp_all add: matches_content_category_def get_or_def dict_get_def ascii_lower_def
        lower_char_def)
  have items: "fst (filter_rss_items_by_category ascii_lower ?items ?cfg False)
       = [\<lparr>item_title = Some ''Stock prices surge'', item_payload = ()\<rparr>,
          \<lparr>item_title = Some ''Market closes flat'', item_payload = ()\<rparr>]"
    by (simp add: filter_rss_items_fst m get_or_def)
  have res: "fst (filter_results_by_category ascii_lower ?results ?cfg False)
       = [(''src1'', [(''A stock tip'', ()), (''Market closes flat'', ())]),
          (''src3'', [(''Stock prices surge'', ())])]"
    by (simp add: filter_results_enabled[OF h en] m)
  from order_preserved[OF h, where lower = ascii_lower and rss_items = ?items and cfg = ?cfg
      and quiet = False]
  have "subseq (fst (filter_rss_items_by_category ascii_lower ?items ?cfg False)) ?items"
    and "subseq (map fst (fst (filter_results_by_category ascii_lower ?results ?cfg False)))
           (map fst ?results)"
    by blast+
  with h items res show ?thesis by simp
qed

subsection \<open>Filtering never adds anything\<close>

text \<open>
  Claim C7. The items returned by \<^verbatim>\<open>filter_rss_items_by_category\<close> are items of the input,
  and every (source, title) pair of the output of \<^verbatim>\<open>filter_results_by_category\<close>, with
  the data stored under it, is a pair of the input with the same data. This holds for every
  configuration, the enabled and well-formed ones in particular.
\<close>

theorem output_subset_of_input:
  assumes "is_results results"
  shows "set (fst (filter_rss_items_by_category lower rss_items cfg quiet)) \<subseteq> set rss_items
       \<and> {(source_id, q). \<exists>kept.
             (source_id, kept) \<in> set (fst (filter_results_by_category lower results cfg quiet))
             \<and> q \<in> set kept}
         \<subseteq> {(source_id, q). \<exists>titles_data.
             (source_id, titles_data) \<in> set results \<and> q \<in> set titles_data}"
proof -
  let ?out = "fst (filter_results_by_category lower results cfg quiet)"
  let ?P = "\<lambda>q. matches_content_category lower (fst q) cfg"
  have items: "set (fst (filter_rss_items_by_category lower rss_items cfg quiet)) \<subseteq> set rss_items"
    by (simp add: filter_rss_items_fst)
  have "\<exists>titles_data. (source_id, titles_data) \<in> set results \<and> q \<in> set titles_data"
    if kept: "(source_id, kept) \<in> set ?out" and q: "q \<in> set kept" for source_id kept q
    using filter_results_cases[OF assms, of lower cfg quiet]
  proof
    assume "?out = results"
    with kept q show ?thesis by auto
  next
    assume out: "?out = filter (\<lambda>p. snd p \<noteq> []) (map (\<lambda>p. (fst p, filter ?P (snd p))) results)"
    from kept obtain p where p: "p \<in> set results" "(source_id, kept) = (fst p, filter ?P (snd p))"
      unfolding out kept_sources_member by auto
    from p(2) q have "q \<in> set (snd p)" by simp
    moreover from p have "(source_id, snd p) \<in> set results" by simp
    ultimately show ?thesis by blast
  qed
  with items show ?thesis by blast
qed

text \<open>An instance on the configuration and the inputs of scenarios A and B.\<close>

theorem output_subset_of_input_witness:
  "is_results [(''src1'', [(''A stock tip'', ()), (''Weather forecast'', ())]),
               (''src2'', [(''Sports update'', ())])]
   \<and> set (fst (filter_rss_items_by_category ascii_lower
        [\<lparr>item_title = Some ''Stock prices surge'', item_payload = ()\<rparr>,
         \<lparr>item_title = Some ''Local weather today'', item_payload = ()\<rparr>,
         \<lparr>item_title = Some ''Market closes flat'', item_payload = ()\<rparr>]
        \<lparr>ENABLED = Some True, CATEGORIES = Some [''finance''],
         KEYWORDS = Some [(''finance'', [''stock'', ''market''])]\<rparr> False))
       \<subseteq> set [\<lparr>item_title = Some ''Stock prices surge'', item_payload = ()\<rparr>,
         \<lparr>item_title = Some ''Local weather today'', item_payload = ()\<rparr>,
         \<lparr>item_title = Some ''Market closes flat'', item_payload = ()\<rparr>]
   \<and> {(source_id, q). \<exists>kept.
         (source_id, kept) \<in> set (fst (filter_results_by_category ascii_lower
            [(''src1'', [(''A stock tip'', ()), (''Weather forecast'', ())]),
             (''src2'', [(''Sports update'', ())])]
            \<lparr>ENABLED = Some True, CATEGORIES = Some [''finance''],
             KEYWORDS = Some [(''finance'', [''stock'', ''market''])]\<rparr> False))
         \<and> q \<in> set kept}
       \<subseteq> {(source_id, q). \<exists>titles_data.
         (source_id, titles_data) \<in> set
            [(''src1'', [(''A stock tip'', ()), (''Weather forecast'', ())]),
             (''src2'', [(''Sports update'', ())])]
         \<and> q \<in> set titles_data}
   \<and> fst (filter_results_by_category ascii_lower
            [(''src1'', [(''A stock tip'', ()), (''Weather forecast'', ())]),
             (''src2'', [(''Sports update'', ())])]
            \<lparr>ENABLED = Some True, CATEGORIES = Some [''finance''],
             KEYWORDS = Some [(''finance'', [''stock'', ''market''])]\<rparr> False)
       = [(''src1'', [(''A stock tip'', ())])]"
proof -
  let ?cfg = "\<lparr>ENABLED = Some True, CATEGORIES = Some [''finance''],
         KEYWORDS = Some [(''finance'', [''stock'', ''market''])]\<rparr>"
  let ?results = "[(''src1'', [(''A stock tip'', ()), (''Weather forecast'', ())]),
             (''src2'', [(''Sports update'', ())])]"
  have h: "is_results ?results"
    by (simp add: is_results_def is_dict_def)
  have en: "ENABLED ?cfg = Some True" by simp
  have m: "matches_content_category ascii_lower ''A stock tip'' ?cfg"
    "\<not> matches_content_category ascii_lower ''Weather forecast'' ?cfg"
    "\<not> matches_content_category ascii_lower ''Sports update'' ?cfg"
    by (simp_all add: matches_content_category_def get_or_def dict_get_def ascii_lower_def
        lower_char_def)
  have res: "fst (filter_results_by_category ascii_lower ?results ?cfg False)
       = [(''src1'', [(''A stock tip'', ())])]"
    by (simp add: filter_results_enabled[OF h en] m)
  show ?thesis
    using h res output_subset_of_input[OF h, where lower = ascii_lower and cfg = ?cfg
      and quiet = False and rss_items =
        "[\<lparr>item_title = Some ''Stock prices surge'', item_payload = ()\<rparr>,
         \<lparr>item_title = Some ''Local weather today'', item_payload = ()\<rparr>,
         \<lparr>item_title = Some ''Market closes flat'', item_payload = ()\<rparr>]"]
    by blast
qed

subsection \<open>Idempotence\<close>

text \<open>
  Claim C8. For every configuration and every input, filtering the output of a filter
  again with the same configuration changes nothing, for
  \<^verbatim>\<open>filter_rss_items_by_category\<close> and for \<^verbatim>\<open>filter_results_by_category\<close>.
\<close>

theorem filter_idempotent:
  assumes "is_results results"
  shows "fst (filter_rss_items_by_category lower
               (fst (filter_rss_items_by_category lower rss_items cfg quiet)) cfg quiet)
           = fst (filter_rss_items_by_category lower rss_items cfg quiet)
       \<and> fst (filter_results_by_category lower
               (fst (filter_results_by_category lower results cfg quiet)) cfg quiet)
           = fst (filter_results_by_category lower results cfg quiet)"
proof -
  let ?P = "\<lambda>q. matches_content_category lower (fst q) cfg"
  have items: "fst (filter_rss_items_by_category lower
               (fst (filter_rss_items_by_category lower rss_items cfg quiet)) cfg quiet)
           = fst (filter_rss_items_by_category lower rss_items cfg quiet)"
    by (simp add: filter_rss_items_fst)
  have "fst (filter_results_by_category lower
               (fst (filter_results_by_category lower results cfg quiet)) cfg quiet)
           = fst (filter_results_by_category lower results cfg quiet)"
  proof (cases "ENABLED cfg = Some True")
    case True
    let ?kept = "filter (\<lambda>p. snd p \<noteq> []) (map (\<lambda>p. (fst p, filter ?P (snd p))) results)"
    have once: "fst (filter_results_by_category lower results cfg quiet) = ?kept"
      by (simp add: filter_results_enabled[OF assms True])
    have "is_results ?kept" using assms by (rule is_results_kept)
    then have "fst (filter_results_by_category lower ?kept cfg quiet)
        = filter (\<lambda>p. snd p \<noteq> []) (map (\<lambda>p. (fst p, filter ?P (snd p))) ?kept)"
      by (simp add: filter_results_enabled[OF _ True])
    also have "\<dots> = ?kept" by (rule kept_sources_idem)
    finally show ?thesis by (simp only: once)
  next
    case False
    then show ?thesis by (simp add: filter_results_disabled)
  qed
  with items show ?thesis by simp
qed

text \<open>An instance: scenarios A and B, filtered once and filtered again.\<close>

theorem filter_idempotent_witness:
  "is_results [(''src1'', [(''A stock tip'', ()), (''Weather forecast'', ())]),
               (''src2'', [(''Sports update'', ())])]
   \<and> fst (filter_rss_items_by_category ascii_lower
        [\<lparr>item_title = Some ''Stock prices surge'', item_payload = ()\<rparr>,
         \<lparr>item_title = Some ''Local weather today'', item_payload = ()\<rparr>,
         \<lparr>item_title = Some ''Market closes flat'', item_payload = ()\<rparr>]
        \<lparr>ENABLED = Some True, CATEGORIES = Some [''finance''],
         KEYWORDS = Some [(''finance'', [''stock'', ''market''])]\<rparr> False)
       = [\<lparr>item_title = Some ''Stock prices surge'', item_payload = ()\<rparr>,
          \<lparr>item_title = Some ''Market closes flat'', item_payload = ()\<rparr>]
   \<and> fst (filter_rss_items_by_category ascii_lower
        [\<lparr>item_title = Some ''Stock prices surge'', item_payload = ()\<rparr>,
         \<lparr>item_title = Some ''Market closes flat'', item_payload = ()\<rparr>]
        \<lparr>ENABLED = Some True, CATEGORIES = Some [''finance''],
         KEYWORDS = Some [(''finance'', [''stock'', ''market''])]\<rparr> False)
       = [\<lparr>item_title = Some ''Stock prices surge'', item_payload = ()\<rparr>,
          \<lparr>item_title = Some ''Market closes flat'', item_payload = ()\<rparr>]
   \<and> fst (filter_results_by_category ascii_lower
        [(''src1'', [(''A stock tip'', ()), (''Weather forecast'', ())]),
         (''src2'', [(''Sports update'', ())])]
        \<lparr>ENABLED = Some True, CATEGORIES = Some [''finance''],
         KEYWORDS = Some [(''finance'', [''stock'', ''market''])]\<rparr> False)
       = [(''src1'', [(''A stock tip'', ())])]
   \<and> fst (filter_results_by_category ascii_lower
        [(''src1'', [(''A stock tip'', ())])]
        \<lparr>ENABLED = Some True, CATEGORIES = Some [''finance''],
         KEYWORDS = Some [(''finance'', [''stock'', ''market''])]\<rparr> False)
       = [(''src1'', [(''A stock tip'', ())])]"
proof -
  let ?cfg = "\<lparr>ENABLED = Some True, CATEGORIES = Some [''finance''],
         KEYWORDS = Some [(''finance'', [''stock'', ''market''])]\<rparr>"
  let ?results = "[(''src1'', [(''A stock tip'', ()), (''Weather forecast'', ())]),
             (''src2'', [(''Sports update'', ())])]"
  let ?items = "[\<lparr>item_title = Some ''Stock prices surge'', item_payload = ()\<rparr>,
         \<lparr>item_title = Some ''Local weather today'', item_payload = ()\<rparr>,
         \<lparr>item_title = Some ''Market closes flat'', item_payload = ()\<rparr>]"
  have h: "is_results ?results"
    by (simp add: is_results_def is_dict_def)
  have en: "ENABLED ?cfg = Some True" by simp
  have m: "matches_content_category ascii_lower ''A stock tip'' ?cfg"
    "\<not> matches_content_category ascii_lower ''Weather forecast'' ?cfg"
    "matches_content_category ascii_lower ''Market closes flat'' ?cfg"
    "\<not> matches_content_category ascii_lower ''Sports update'' ?cfg"
    "matches_content_category ascii_lower ''Stock prices surge'' ?cfg"
    "\<not> matches_content_category ascii_lower ''Local weather today'' ?cfg"
    by (simp_all add: matches_content_category_def get_or_def dict_get_def ascii_lower_def
        lower_char_def)
  have items: "fst (filter_rss_items_by_category ascii_lower ?items ?cfg False)
       = [\<lparr>item_title = Some ''Stock prices surge'', item_payload = ()\<rparr>,
          \<lparr>item_title = Some ''Market closes flat'', item_payload = ()\<rparr>]"
    by (simp add: filter_rss_items_fst m get_or_def)
  have res: "fst (filter_results_by_category ascii_lower ?results ?cfg False)
       = [(''src1'', [(''A stock tip'', ())])]"
    by (simp add: filter_results_enabled[OF h en] m)
  show ?thesis
    using h items res filter_idempotent[OF h, where lower = ascii_lower and cfg = ?cfg
      and quiet = False and rss_items = ?items]
    by simp
qed

subsection \<open>Case insensitivity\<close>




end
